theory Spec2Isabelle
  imports Main "HOL-Library.Word"
begin

unbundle bit_operations_syntax

section \<open>The message types shared with the codec\<close>

text \<open>
  The package works on the message structures of the DNS codec it imports. Only the
  fields that the package reads or writes are kept. Go strings are byte sequences, as
  \<^typ>\<open>string\<close> is; \<open>uint16\<close> is \<^typ>\<open>16 word\<close>; the result code is a Go
  \<open>int\<close>.
\<close>

record Question =
  Name :: string
  Qtype :: "16 word"
  Qclass :: "16 word"

text \<open>
  The header of a resource record. Its name field is called \<open>Name\<close> in the source;
  it is \<open>HdrName\<close> here, since the question's field already has that name.
\<close>

record RR_Header =
  HdrName :: string
  Rrtype :: "16 word"
  Class :: "16 word"
  Ttl :: "32 word"

datatype EDNS0 = EDNS0_PADDING "8 word list"

text \<open>
  A resource record is an interface value in the source, and the package tells the
  records apart by their dynamic type (a type switch), never by the type number of the
  header. The constructors are those dynamic types: the three the package interprets,
  the EDNS(0) pseudo-record that the query builder attaches, and one constructor for
  every other record type, with its payload left as bytes. An address payload is a byte
  slice (\<open>net.IP\<close>).
\<close>

datatype RR =
    A RR_Header "8 word list"
  | AAAA RR_Header "8 word list"
  | CNAME RR_Header string
  | OPT RR_Header "EDNS0 list"
  | RFC3597 RR_Header "8 word list"

fun Header :: "RR \<Rightarrow> RR_Header" where
  "Header (A h _) = h"
| "Header (AAAA h _) = h"
| "Header (CNAME h _) = h"
| "Header (OPT h _) = h"
| "Header (RFC3597 h _) = h"

text \<open>The transaction identifier is \<open>Id\<close> in the source.\<close>

record Msg =
  Id' :: "16 word"
  Response :: bool
  Authoritative :: bool
  RecursionDesired :: bool
  RecursionAvailable :: bool
  Rcode :: int
  Question :: "Question list"
  Answer :: "RR list"
  Extra :: "RR list"

text \<open>
  The errors of the package. The last one stands for the error of the IDNA library, which
  the query builder passes on.
\<close>

datatype error =
    ErrInvalidQuery
  | ErrCannotUnmarshalMessage
  | ErrInvalidResponse
  | ErrNoName
  | ErrServerMisbehaving
  | ErrServerTemporarilyMisbehaving
  | ErrNoData
  | ErrIDNA

section \<open>The ASCII name comparator\<close>

text \<open>
  The body of the comparison loop folds each of the two bytes with the same three lines:
  a byte between \<open>'A'\<close> (65) and \<open>'Z'\<close> (90) gets \<open>0x20\<close> added, in \<open>uint8\<close>
  arithmetic.
\<close>

definition foldByte :: "char \<Rightarrow> char" where
  "foldByte a =
     (if (65::nat) \<le> of_char a \<and> of_char a \<le> (90::nat)
      then char_of (of_char a + (32::nat)) else a)"

text \<open>
  The loop \<open>for i := 0; i < len(x); i++\<close>, entered only with strings of one length: it
  walks both strings in step and returns \<open>false\<close> at the first pair of bytes that differ
  after folding.
\<close>

fun equalASCIILoop :: "string \<Rightarrow> string \<Rightarrow> bool" where
  "equalASCIILoop (a # x) (b # y) =
     (if foldByte a \<noteq> foldByte b then False else equalASCIILoop x y)"
| "equalASCIILoop _ _ = True"

definition responseEqualASCIIName :: "string \<Rightarrow> string \<Rightarrow> bool" where
  "responseEqualASCIIName x y =
     (if length x \<noteq> length y then False else equalASCIILoop x y)"

text \<open>
  The comparator as the specification words it: the letters \<open>A\<close> to \<open>Z\<close> are mapped to
  their lowercase letters, given here by the table of the 26 letters; every other byte
  is left as it is.
\<close>

definition specLower :: "char \<Rightarrow> char" where
  "specLower c =
     (case map_of (zip ''ABCDEFGHIJKLMNOPQRSTUVWXYZ'' ''abcdefghijklmnopqrstuvwxyz'') c of
        Some l \<Rightarrow> l
      | None \<Rightarrow> c)"

section \<open>Structural validation of a response\<close>

text \<open>
  The function returns a question together with an error; the model returns one or the
  other. The checks are the source's, in the source's order.
\<close>

definition ValidateResponseForQuery :: "Msg \<Rightarrow> Msg \<Rightarrow> error + Question" where
  "ValidateResponseForQuery query resp =
     (if \<not> Response resp then Inl ErrInvalidResponse
      else if Id' resp \<noteq> Id' query then Inl ErrInvalidResponse
      else if length (Question query) \<noteq> 1 then Inl ErrInvalidQuery
      else if length (Question resp) \<noteq> 1 then Inl ErrInvalidResponse
      else
        let resp0 = Question resp ! 0;
            query0 = Question query ! 0
        in if \<not> responseEqualASCIIName (Name resp0) (Name query0) then Inl ErrInvalidResponse
           else if Qclass resp0 \<noteq> Qclass query0 then Inl ErrInvalidResponse
           else if Qtype resp0 \<noteq> Qtype query0 then Inl ErrInvalidResponse
           else Inr query0)"

section \<open>Interpretation of the result code\<close>

text \<open>
  The result codes are constants of the codec; their values are those of RFC 1035.
\<close>

definition RcodeSuccess :: int where
  "RcodeSuccess = 0"

definition RcodeServerFailure :: int where
  "RcodeServerFailure = 2"

definition RcodeNameError :: int where
  "RcodeNameError = 3"

definition RcodeRefused :: int where
  "RcodeRefused = 5"

text \<open>The function returns an error or \<open>nil\<close>; \<open>nil\<close> is \<^const>\<open>None\<close>.\<close>

definition ResponseErrorFromRCODE :: "Msg \<Rightarrow> error option" where
  "ResponseErrorFromRCODE resp =
     (if Rcode resp = RcodeNameError then Some ErrNoName
      else if Rcode resp = RcodeSuccess \<and> \<not> Authoritative resp \<and>
              \<not> RecursionAvailable resp \<and> length (Answer resp) = 0
        then Some ErrNoData
      else if Rcode resp \<noteq> RcodeSuccess
        then (if Rcode resp = RcodeServerFailure then Some ErrServerTemporarilyMisbehaving
              else Some ErrServerMisbehaving)
      else None)"

section \<open>Extraction of the valid answers\<close>

text \<open>
  The set of valid names is a Go \<open>map[string]bool\<close>: reading a key that was never
  written gives \<open>false\<close>.
\<close>

definition lookupName :: "(string \<rightharpoonup> bool) \<Rightarrow> string \<Rightarrow> bool" where
  "lookupName validNames k = (case validNames k of Some b \<Rightarrow> b | None \<Rightarrow> False)"

text \<open>
  Canonicalization of a name (\<open>dns.CanonicalName\<close>) is a function of the codec. The
  extraction takes it as the parameter \<open>canon\<close>.

  The state of the first loop is the pair of the map \<open>validNames\<close> and the string
  \<open>currentName\<close>. One iteration, on one answer: only a record of dynamic type
  \<open>CNAME\<close> can change the state.
\<close>

fun chainStep ::
  "(string \<Rightarrow> string) \<Rightarrow> Question \<Rightarrow> (string \<rightharpoonup> bool) \<times> string \<Rightarrow> RR \<Rightarrow>
   (string \<rightharpoonup> bool) \<times> string" where
  "chainStep canon q0 (validNames, currentName) (CNAME header target) =
     (if responseEqualASCIIName currentName (HdrName header) \<and> Class header = Qclass q0
      then (validNames(canon target \<mapsto> True), canon target)
      else (validNames, currentName))"
| "chainStep canon q0 (validNames, currentName) _ = (validNames, currentName)"

text \<open>
  The state before the loop: the map holds the canonicalized name of the question, and
  \<open>currentName\<close> is the name of the question as it is.
\<close>

definition chainInit :: "(string \<Rightarrow> string) \<Rightarrow> Question \<Rightarrow> (string \<rightharpoonup> bool) \<times> string" where
  "chainInit canon q0 = (Map.empty(canon (Name q0) \<mapsto> True), Name q0)"

text \<open>The first loop, over the answers in their order.\<close>

definition chainState ::
  "(string \<Rightarrow> string) \<Rightarrow> Question \<Rightarrow> RR list \<Rightarrow> (string \<rightharpoonup> bool) \<times> string" where
  "chainState canon q0 answers = foldl (chainStep canon q0) (chainInit canon q0) answers"

text \<open>
  The second loop, with the slice \<open>valid\<close> it appends to. The two \<open>continue\<close>
  statements are the first two branches.
\<close>

fun filterLoop ::
  "(string \<Rightarrow> string) \<Rightarrow> Question \<Rightarrow> (string \<rightharpoonup> bool) \<Rightarrow> RR list \<Rightarrow> RR list \<Rightarrow> RR list" where
  "filterLoop canon q0 validNames [] valid = valid"
| "filterLoop canon q0 validNames (answer # rest) valid =
     (let header = Header answer
      in if \<not> lookupName validNames (canon (HdrName header))
           then filterLoop canon q0 validNames rest valid
         else if Qclass q0 \<noteq> Class header
           then filterLoop canon q0 validNames rest valid
         else filterLoop canon q0 validNames rest (valid @ [answer]))"

definition ResponseExtractValidAnswers ::
  "(string \<Rightarrow> string) \<Rightarrow> Question \<Rightarrow> Msg \<Rightarrow> error + RR list" where
  "ResponseExtractValidAnswers canon q0 resp =
     (let (validNames, currentName) = chainState canon q0 (Answer resp);
          valid = filterLoop canon q0 validNames (Answer resp) []
      in if length valid < 1 then Inl ErrNoData else Inr valid)"

text \<open>
  The names that the first loop has marked valid, as a set; the theorems below speak
  about it.
\<close>

definition validNameSet :: "(string \<Rightarrow> string) \<Rightarrow> Question \<Rightarrow> RR list \<Rightarrow> string set" where
  "validNameSet canon q0 answers = {k. lookupName (fst (chainState canon q0 answers)) k}"

section \<open>The parsed response and its projections\<close>

text \<open>
  The fields \<open>Query\<close> and \<open>Response\<close> of the source's structure are \<open>RQuery\<close> and
  \<open>RResponse\<close> here.
\<close>

record Response =
  RQuery :: Msg
  RResponse :: Msg
  ValidRRs :: "RR list"

definition ParseResponse :: "(string \<Rightarrow> string) \<Rightarrow> Msg \<Rightarrow> Msg \<Rightarrow> error + Response" where
  "ParseResponse canon query resp =
     (case ValidateResponseForQuery query resp of
        Inl err \<Rightarrow> Inl err
      | Inr q0 \<Rightarrow>
          (case ResponseErrorFromRCODE resp of
             Some err \<Rightarrow> Inl err
           | None \<Rightarrow>
               (case ResponseExtractValidAnswers canon q0 resp of
                  Inl err \<Rightarrow> Inl err
                | Inr rrs \<Rightarrow> Inr \<lparr>RQuery = query, RResponse = resp, ValidRRs = rrs\<rparr>)))"

text \<open>
  The textual form of an address (\<open>net.IP.String\<close>) is a function of the standard
  library; the projections take it as the parameter \<open>ipString\<close>. Each projection is a
  loop over the valid records with a type switch of one case.
\<close>

fun recordsALoop :: "(8 word list \<Rightarrow> string) \<Rightarrow> RR list \<Rightarrow> string list \<Rightarrow> string list" where
  "recordsALoop ipString [] out = out"
| "recordsALoop ipString (A h a # rest) out = recordsALoop ipString rest (out @ [ipString a])"
| "recordsALoop ipString (_ # rest) out = recordsALoop ipString rest out"

definition RecordsA :: "(8 word list \<Rightarrow> string) \<Rightarrow> Response \<Rightarrow> error + string list" where
  "RecordsA ipString r =
     (let out = recordsALoop ipString (ValidRRs r) []
      in if length out < 1 then Inl ErrNoData else Inr out)"

fun recordsAAAALoop :: "(8 word list \<Rightarrow> string) \<Rightarrow> RR list \<Rightarrow> string list \<Rightarrow> string list" where
  "recordsAAAALoop ipString [] out = out"
| "recordsAAAALoop ipString (AAAA h a # rest) out =
     recordsAAAALoop ipString rest (out @ [ipString a])"
| "recordsAAAALoop ipString (_ # rest) out = recordsAAAALoop ipString rest out"

definition RecordsAAAA :: "(8 word list \<Rightarrow> string) \<Rightarrow> Response \<Rightarrow> error + string list" where
  "RecordsAAAA ipString r =
     (let out = recordsAAAALoop ipString (ValidRRs r) []
      in if length out < 1 then Inl ErrNoData else Inr out)"

text \<open>
  Modelled from the spec: \<open>RecordsCNAME\<close> is called by the package's tests and named by
  its documentation, and the source file of the response has no such method. The
  specification gives it as the ordered list of every canonical-name target among the
  valid records, found in one scan that keeps the order, failing with \<open>NoData\<close> when the
  list is empty. It is written here as the two projections above are.
\<close>

fun recordsCNAMELoop :: "RR list \<Rightarrow> string list \<Rightarrow> string list" where
  "recordsCNAMELoop [] out = out"
| "recordsCNAMELoop (CNAME h target # rest) out = recordsCNAMELoop rest (out @ [target])"
| "recordsCNAMELoop (_ # rest) out = recordsCNAMELoop rest out"

definition RecordsCNAME :: "Response \<Rightarrow> error + string list" where
  "RecordsCNAME r =
     (let out = recordsCNAMELoop (ValidRRs r) []
      in if length out < 1 then Inl ErrNoData else Inr out)"

section \<open>The query builder\<close>

definition QueryFlagBlockLengthPadding :: "16 word" where
  "QueryFlagBlockLengthPadding = 1"

definition QueryFlagDNSSec :: "16 word" where
  "QueryFlagDNSSec = 2"

definition QueryMaxResponseSizeUDP :: "16 word" where
  "QueryMaxResponseSizeUDP = 1232"

definition QueryMaxResponseSizeTCP :: "16 word" where
  "QueryMaxResponseSizeTCP = 4096"

text \<open>The field \<open>Name\<close> of the source's structure is \<open>QueryName\<close> here.\<close>

record Query =
  Flags :: "16 word"
  ID :: "16 word"
  MaxSize :: "16 word"
  QueryName :: string
  Type :: "16 word"

subsection \<open>What the package uses of the codec\<close>

text \<open>
  Modelled from the spec: the constants and functions of this subsection belong to the
  codec that the package imports, which is not part of its source. They are written from
  the codec's documented behaviour and from what the specification says of the built
  message: a fully qualified name ends with a dot that is not escaped; the canonical form
  of a name is fully qualified with \<open>A\<close> to \<open>Z\<close> in lowercase; the EDNS(0)
  pseudo-record has the root name, the type \<open>OPT\<close>, the advertised size in its class
  field and the DNSSEC-desired bit as bit 15 of its TTL field. The theorems on the
  extraction hold for every function \<open>canon\<close>; \<open>CanonicalName\<close> is what the examples
  put in its place.
\<close>

definition ClassINET :: "16 word" where
  "ClassINET = 1"

definition ClassCHAOS :: "16 word" where
  "ClassCHAOS = 3"

definition TypeA :: "16 word" where
  "TypeA = 1"

definition TypeCNAME :: "16 word" where
  "TypeCNAME = 5"

definition TypeAAAA :: "16 word" where
  "TypeAAAA = 28"

definition TypeOPT :: "16 word" where
  "TypeOPT = 41"

definition IsFqdn :: "string \<Rightarrow> bool" where
  "IsFqdn s =
     (s \<noteq> [] \<and> last s = CHR ''.'' \<and>
      even (length (takeWhile (\<lambda>c. c = CHR 0x5C) (rev (butlast s)))))"

definition Fqdn :: "string \<Rightarrow> string" where
  "Fqdn s = (if IsFqdn s then s else s @ ''.'')"

definition CanonicalName :: "string \<Rightarrow> string" where
  "CanonicalName s = map foldByte (Fqdn s)"

definition SetEdns0 :: "16 word \<Rightarrow> bool \<Rightarrow> Msg \<Rightarrow> Msg" where
  "SetEdns0 udpsize dnssec m =
     m\<lparr>Extra := Extra m @
        [OPT \<lparr>HdrName = ''.'', Rrtype = TypeOPT, Class = udpsize,
              Ttl = (if dnssec then 0x8000 else 0)\<rparr> []]\<rparr>"

text \<open>
  The statement \<open>msg.IsEdns0().Option = append(msg.IsEdns0().Option, opt)\<close>: the
  codec looks for the pseudo-record from the end of the additional section, and the
  option goes to the end of that record's options. The list is given last record first.
  In the builder the pseudo-record is there, since \<open>SetEdns0\<close> has just added it.
\<close>

fun appendOptionRev :: "EDNS0 \<Rightarrow> RR list \<Rightarrow> RR list" where
  "appendOptionRev opt [] = []"
| "appendOptionRev opt (OPT h opts # rest) = OPT h (opts @ [opt]) # rest"
| "appendOptionRev opt (rr # rest) = rr # appendOptionRev opt rest"

definition appendOption :: "EDNS0 \<Rightarrow> Msg \<Rightarrow> Msg" where
  "appendOption opt m = m\<lparr>Extra := rev (appendOptionRev opt (rev (Extra m)))\<rparr>"

text \<open>
  Modelled from the spec: the wire length of a message (\<open>Msg.Len\<close>) is computed by the
  codec. An EDNS(0) option takes four octets of header (its code and its length) and
  then its payload; the length of all the rest of the message, which the options do not
  change, is the parameter \<open>fixedLen\<close>, applied to the message without its options.
\<close>

fun optionLen :: "EDNS0 \<Rightarrow> nat" where
  "optionLen (EDNS0_PADDING padding) = 4 + length padding"

fun optionsOf :: "RR \<Rightarrow> EDNS0 list" where
  "optionsOf (OPT h opts) = opts"
| "optionsOf _ = []"

fun withoutOptions :: "RR \<Rightarrow> RR" where
  "withoutOptions (OPT h opts) = OPT h []"
| "withoutOptions rr = rr"

definition Len :: "(Msg \<Rightarrow> nat) \<Rightarrow> Msg \<Rightarrow> nat" where
  "Len fixedLen m =
     fixedLen (m\<lparr>Extra := map withoutOptions (Extra m)\<rparr>) +
     sum_list (map optionLen (concat (map optionsOf (Extra m))))"

subsection \<open>Building the message\<close>

text \<open>
  The IDNA encoding of the name is a function of another library and can fail; it is the
  parameter \<open>toASCII\<close>. The conversion \<open>uint16(msg.Len()+4)\<close> keeps the low 16 bits of
  the length, and the subtraction from 128 and the remainder are \<open>uint16\<close> operations.
\<close>

definition NewMsg ::
  "(string \<Rightarrow> error + string) \<Rightarrow> (Msg \<Rightarrow> nat) \<Rightarrow> Query \<Rightarrow> error + Msg" where
  "NewMsg toASCII fixedLen q =
     (case toASCII (QueryName q) of
        Inl err \<Rightarrow> Inl err
      | Inr encoded \<Rightarrow>
          let punyName = (if \<not> IsFqdn encoded then Fqdn encoded else encoded);
              question = \<lparr>Name = punyName, Qtype = Type q, Qclass = ClassINET\<rparr>;
              msg0 = \<lparr>Id' = ID q, Response = False, Authoritative = False,
                      RecursionDesired = True, RecursionAvailable = False, Rcode = 0,
                      Question = [question], Answer = [], Extra = []\<rparr>;
              msg1 = SetEdns0 (MaxSize q) (Flags q AND QueryFlagDNSSec \<noteq> 0) msg0
          in if Flags q AND QueryFlagBlockLengthPadding \<noteq> 0
             then
               let remainder = ((128 - word_of_nat (Len fixedLen msg1 + 4)) mod 128 :: 16 word);
                   opt = EDNS0_PADDING (replicate (unat remainder) 0)
               in Inr (appendOption opt msg1)
             else Inr msg1)"

section \<open>The specification's side of the extraction and of the projections\<close>

text \<open>
  The filter of the specification's second phase: a record is kept when its canonicalized
  header name is a valid name and its class is the class of the question. The type of the
  record plays no part.
\<close>

definition specKeeps :: "(string \<Rightarrow> string) \<Rightarrow> Question \<Rightarrow> RR list \<Rightarrow> RR \<Rightarrow> bool" where
  "specKeeps canon q0 answers rr =
     (canon (HdrName (Header rr)) \<in> validNameSet canon q0 answers \<and>
      Class (Header rr) = Qclass q0)"

text \<open>What a record gives to each typed projection: its payload, if it has that type.\<close>

fun addrOfA :: "RR \<Rightarrow> 8 word list option" where
  "addrOfA (A h a) = Some a"
| "addrOfA _ = None"

fun addrOfAAAA :: "RR \<Rightarrow> 8 word list option" where
  "addrOfAAAA (AAAA h a) = Some a"
| "addrOfAAAA _ = None"

fun targetOfCNAME :: "RR \<Rightarrow> string option" where
  "targetOfCNAME (CNAME h target) = Some target"
| "targetOfCNAME _ = None"

section \<open>Example messages\<close>

text \<open>
  The messages of the package's tests: a question for a name, with type \<open>A\<close> and class
  \<open>IN\<close>; a query with that one question; the reply to a request, which takes over its
  identifier and its first question and carries the given answers; the header of a
  record of class \<open>IN\<close>.
\<close>

definition inHeader :: "string \<Rightarrow> 16 word \<Rightarrow> RR_Header" where
  "inHeader name rrtype = \<lparr>HdrName = name, Rrtype = rrtype, Class = ClassINET, Ttl = 0\<rparr>"

definition testQuestion :: "string \<Rightarrow> Question" where
  "testQuestion name = \<lparr>Name = name, Qtype = TypeA, Qclass = ClassINET\<rparr>"

definition testQuery :: "string \<Rightarrow> Msg" where
  "testQuery name =
     \<lparr>Id' = 37, Response = False, Authoritative = False, RecursionDesired = True,
      RecursionAvailable = False, Rcode = RcodeSuccess, Question = [testQuestion name],
      Answer = [], Extra = []\<rparr>"

definition testReply :: "Msg \<Rightarrow> RR list \<Rightarrow> Msg" where
  "testReply request answers =
     \<lparr>Id' = Id' request, Response = True, Authoritative = False,
      RecursionDesired = RecursionDesired request, RecursionAvailable = False,
      Rcode = RcodeSuccess, Question = take 1 (Question request), Answer = answers,
      Extra = []\<rparr>"

text \<open>The answers of the test with a chain of two aliases in mixed case.\<close>

definition mixedCaseAnswers :: "RR list" where
  "mixedCaseAnswers =
     [CNAME (inHeader ''eXample.co.uk.'' TypeCNAME) ''ExamPle.com.'',
      CNAME (inHeader ''example.COM.'' TypeCNAME) ''Example.ORG.'',
      A (inHeader ''eXaMpLe.org.'' TypeA) [127, 0, 0, 1]]"

text \<open>
  The textual forms of the three addresses of the tests of the projections, for the
  places where a concrete \<open>ipString\<close> is needed.
\<close>

definition testIPString :: "8 word list \<Rightarrow> string" where
  "testIPString ip =
     (if ip = [127, 0, 0, 1] then ''127.0.0.1''
      else if ip = [8, 8, 8, 8] then ''8.8.8.8''
      else if ip = [0x20, 0x01, 0x0d, 0xb8, 0, 0, 0, 0, 0, 0, 0, 0, 0, 0, 0, 1]
        then ''2001:db8::1''
      else ''?'')"

definition testResponse :: "RR list \<Rightarrow> Response" where
  "testResponse rrs =
     \<lparr>RQuery = testQuery ''example.com.'', RResponse = testReply (testQuery ''example.com.'') rrs,
      ValidRRs = rrs\<rparr>"

text \<open>
  The query of the package's example for an encrypted transport, with both flags set, and
  the length of a message apart from its options when the names of its questions have no
  escapes: twelve octets of header, for each question its name (one octet more than its
  text) with its type and class, and eleven octets for each record of the additional
  section, which here is the pseudo-record with the root name. The IDNA encoding leaves an
  ASCII name of lowercase letters as it is, and refuses a name with a space, as the name
  of the package's test of the failure.
\<close>

definition testTLSQuery :: Query where
  "testTLSQuery =
     \<lparr>Flags = QueryFlagBlockLengthPadding OR QueryFlagDNSSec, ID = 37,
      MaxSize = QueryMaxResponseSizeTCP, QueryName = ''www.example.com'', Type = TypeA\<rparr>"

definition testFixedLen :: "Msg \<Rightarrow> nat" where
  "testFixedLen m =
     12 + sum_list (map (\<lambda>q. length (Name q) + 1 + 4) (Question m)) + 11 * length (Extra m)"

definition testToASCII :: "string \<Rightarrow> error + string" where
  "testToASCII name = (if CHR '' '' \<in> set name then Inl ErrIDNA else Inr name)"

section \<open>Properties of the name comparator\<close>

lemma foldByte_specLower: "foldByte c = specLower c"
proof (cases c)
  case (Char b0 b1 b2 b3 b4 b5 b6 b7)
  then show ?thesis
    by (cases b0; cases b1; cases b2; cases b3; cases b4; cases b5; cases b6; cases b7;
        simp add: foldByte_def specLower_def char_of_eq_iff)
qed

lemma equalASCIILoop_map:
  "length x = length y \<Longrightarrow> equalASCIILoop x y = (map foldByte x = map foldByte y)"
  by (induction x y rule: list_induct2) auto

lemma responseEqualASCIIName_iff:
  "responseEqualASCIIName x y = (length x = length y \<and> map specLower x = map specLower y)"
  using equalASCIILoop_map [of x y]
  by (auto simp: responseEqualASCIIName_def foldByte_specLower [abs_def])

text \<open>
  Claim C7. For all strings \<open>x\<close> and \<open>y\<close>, the comparator returns false when their
  lengths differ. When the lengths are equal it compares byte by byte, each side with
  the bytes \<open>A\<close> to \<open>Z\<close> mapped to lowercase and every other byte (a byte that is not
  ASCII too) compared as it is. Two empty strings are equal, and an empty string is
  unequal to every string that is not empty.
\<close>

theorem responseEqualASCIIName_folds_letters:
  "responseEqualASCIIName x y = (length x = length y \<and> map specLower x = map specLower y) \<and>
   (length x \<noteq> length y \<longrightarrow> \<not> responseEqualASCIIName x y) \<and>
   (length x = length y \<longrightarrow>
      responseEqualASCIIName x y = (\<forall>i<length x. specLower (x ! i) = specLower (y ! i))) \<and>
   (\<forall>c. c \<notin> set ''ABCDEFGHIJKLMNOPQRSTUVWXYZ'' \<longrightarrow> specLower c = c) \<and>
   map specLower ''ABCDEFGHIJKLMNOPQRSTUVWXYZ'' = ''abcdefghijklmnopqrstuvwxyz'' \<and>
   responseEqualASCIIName [] [] \<and>
   (y \<noteq> [] \<longrightarrow> \<not> responseEqualASCIIName [] y \<and> \<not> responseEqualASCIIName y [])"
proof -
  have nth: "length x = length y \<Longrightarrow>
      responseEqualASCIIName x y = (\<forall>i<length x. specLower (x ! i) = specLower (y ! i))"
    by (simp add: responseEqualASCIIName_iff list_eq_iff_nth_eq)
  have other: "\<forall>c. c \<notin> set ''ABCDEFGHIJKLMNOPQRSTUVWXYZ'' \<longrightarrow> specLower c = c"
    by (simp add: specLower_def)
  have letters: "map specLower ''ABCDEFGHIJKLMNOPQRSTUVWXYZ'' = ''abcdefghijklmnopqrstuvwxyz''"
    by (simp add: specLower_def)
  show ?thesis
    using nth other letters by (simp add: responseEqualASCIIName_iff)
qed

text \<open>The comparisons of the package's test of the comparator.\<close>

theorem responseEqualASCIIName_folds_letters_witness:
  "responseEqualASCIIName ''Example.COM.'' ''exaMple.com.'' \<and>
   \<not> responseEqualASCIIName ''example.co.'' ''example.co.uk.'' \<and>
   \<not> responseEqualASCIIName ''example.com.'' ''example.org.'' \<and>
   \<not> responseEqualASCIIName ''example.com.'' [] \<and>
   \<not> responseEqualASCIIName [] ''example.com.'' \<and>
   specLower CHR ''.'' = CHR ''.''"
proof -
  have a: "map specLower ''Example.COM.'' = map specLower ''exaMple.com.''"
    by (simp add: specLower_def)
  have b: "map specLower ''example.com.'' \<noteq> map specLower ''example.org.''"
    by (simp add: specLower_def)
  have 1: "responseEqualASCIIName ''Example.COM.'' ''exaMple.com.''"
    using responseEqualASCIIName_folds_letters [of "''Example.COM.''" "''exaMple.com.''"] a
    by simp
  have 2: "\<not> responseEqualASCIIName ''example.co.'' ''example.co.uk.''"
    using responseEqualASCIIName_folds_letters [of "''example.co.''" "''example.co.uk.''"]
    by simp
  have 3: "\<not> responseEqualASCIIName ''example.com.'' ''example.org.''"
    using responseEqualASCIIName_folds_letters [of "''example.com.''" "''example.org.''"] b
    by simp
  have 4: "\<not> responseEqualASCIIName ''example.com.'' [] \<and>
           \<not> responseEqualASCIIName [] ''example.com.''"
    using responseEqualASCIIName_folds_letters [of "[]" "''example.com.''"]
    by simp
  have "CHR ''.'' \<notin> set ''ABCDEFGHIJKLMNOPQRSTUVWXYZ''"
    by simp
  then have 5: "specLower CHR ''.'' = CHR ''.''"
    using responseEqualASCIIName_folds_letters [of "[]" "[]"]
    by blast
  from 1 2 3 4 5 show ?thesis by simp
qed

section \<open>Properties of the chain of names\<close>






lemma lookupName_upd:
  "lookupName (m(k \<mapsto> True)) k' = (k' = k \<or> lookupName m k')"
  by (simp add: lookupName_def)

lemma chainStep_keeps_names:
  "lookupName (fst st) k \<Longrightarrow> lookupName (fst (chainStep canon q0 st rr)) k"
  by (cases st; cases rr) (auto simp: lookupName_upd)

lemma foldl_chainStep_keeps_names:
  "lookupName (fst st) k \<Longrightarrow> lookupName (fst (foldl (chainStep canon q0) st answers)) k"
proof (induction answers arbitrary: st)
  case Nil
  then show ?case by simp
next
  case (Cons rr answers)
  from Cons.prems have "lookupName (fst (chainStep canon q0 st rr)) k"
    by (rule chainStep_keeps_names)
  then show ?case
    using Cons.IH by simp
qed

lemma question_name_valid: "canon (Name q0) \<in> validNameSet canon q0 answers"
proof -
  have "lookupName (fst (chainInit canon q0)) (canon (Name q0))"
    by (simp add: chainInit_def lookupName_def)
  then show ?thesis
    unfolding validNameSet_def chainState_def
    by (simp add: foldl_chainStep_keeps_names)
qed

text \<open>
  Before the first record the tip is the name of the question as it is, and the valid
  name is its canonical form. For a fully qualified name the two compare alike with
  every header name, since canonicalization then changes the case of letters only.
\<close>

lemma specLower_idem: "specLower (specLower c) = specLower c"
proof (cases c)
  case (Char b0 b1 b2 b3 b4 b5 b6 b7)
  then show ?thesis
    by (cases b0; cases b1; cases b2; cases b3; cases b4; cases b5; cases b6; cases b7;
        simp add: specLower_def)
qed

lemma qualified_tip_compares_as_canonical:
  assumes "IsFqdn name"
  shows "responseEqualASCIIName (CanonicalName name) h = responseEqualASCIIName name h"
proof -
  have "CanonicalName name = map specLower name"
    using assms by (simp add: CanonicalName_def Fqdn_def foldByte_specLower [abs_def])
  moreover have "map specLower (map specLower name) = map specLower name"
    by (simp add: specLower_idem)
  ultimately show ?thesis
    by (simp only: responseEqualASCIIName_iff length_map)
qed



section \<open>Properties of the extraction\<close>

lemma filterLoop_filter:
  "filterLoop canon q0 validNames answers valid =
   valid @ filter (\<lambda>rr. lookupName validNames (canon (HdrName (Header rr))) \<and>
                         Class (Header rr) = Qclass q0) answers"
  by (induction answers arbitrary: valid) (auto simp: Let_def)

lemma ResponseExtractValidAnswers_filter:
  "ResponseExtractValidAnswers canon q0 resp =
     (if filter (specKeeps canon q0 (Answer resp)) (Answer resp) = [] then Inl ErrNoData
      else Inr (filter (specKeeps canon q0 (Answer resp)) (Answer resp)))"
proof -
  have "specKeeps canon q0 (Answer resp) =
        (\<lambda>rr. lookupName (fst (chainState canon q0 (Answer resp))) (canon (HdrName (Header rr))) \<and>
              Class (Header rr) = Qclass q0)"
    by (simp add: specKeeps_def validNameSet_def fun_eq_iff)
  then show ?thesis
    by (simp add: ResponseExtractValidAnswers_def filterLoop_filter split_beta)
qed

text \<open>
  Claim C2. For every question and every response, the extraction returns exactly the
  answer records whose canonicalized header name is a valid name and whose class is the
  class of the question, in the order of the answer section, whatever their type. It
  returns \<open>NoData\<close>, and no other error, exactly when that list is empty: so for a
  response with no answers, for one whose answers all carry names that the chain never
  reaches, and for one whose answers all have another class.
\<close>

theorem ResponseExtractValidAnswers_keeps_valid_names:
  "ResponseExtractValidAnswers canon q0 resp =
     (if filter (specKeeps canon q0 (Answer resp)) (Answer resp) = [] then Inl ErrNoData
      else Inr (filter (specKeeps canon q0 (Answer resp)) (Answer resp))) \<and>
   (ResponseExtractValidAnswers canon q0 resp = Inl ErrNoData \<longleftrightarrow>
      filter (specKeeps canon q0 (Answer resp)) (Answer resp) = []) \<and>
   (\<forall>e. ResponseExtractValidAnswers canon q0 resp = Inl e \<longrightarrow> e = ErrNoData) \<and>
   (Answer resp = [] \<longrightarrow> ResponseExtractValidAnswers canon q0 resp = Inl ErrNoData) \<and>
   ((\<forall>rr \<in> set (Answer resp).
        canon (HdrName (Header rr)) \<notin> validNameSet canon q0 (Answer resp)) \<longrightarrow>
      ResponseExtractValidAnswers canon q0 resp = Inl ErrNoData) \<and>
   ((\<forall>rr \<in> set (Answer resp). Class (Header rr) \<noteq> Qclass q0) \<longrightarrow>
      ResponseExtractValidAnswers canon q0 resp = Inl ErrNoData)"
proof -
  let ?kept = "filter (specKeeps canon q0 (Answer resp)) (Answer resp)"
  have eq: "ResponseExtractValidAnswers canon q0 resp =
      (if ?kept = [] then Inl ErrNoData else Inr ?kept)"
    by (rule ResponseExtractValidAnswers_filter)
  have names: "?kept = []"
    if "\<forall>rr \<in> set (Answer resp).
          canon (HdrName (Header rr)) \<notin> validNameSet canon q0 (Answer resp)"
    using that by (simp add: filter_empty_conv specKeeps_def)
  have classes: "?kept = []" if "\<forall>rr \<in> set (Answer resp). Class (Header rr) \<noteq> Qclass q0"
    using that by (simp add: filter_empty_conv specKeeps_def)
  have none: "?kept = []" if "Answer resp = []"
    using that by simp
  show ?thesis
    using names classes none by (simp add: eq)
qed

text \<open>
  The tests of the extraction: the chain in mixed case (all three records are kept), the
  record of another class, the record of an unrelated name, and the empty answer section.
\<close>

theorem ResponseExtractValidAnswers_keeps_valid_names_witness:
  "ResponseExtractValidAnswers CanonicalName (testQuestion ''Example.CO.UK.'')
     (testReply (testQuery ''Example.CO.UK.'') mixedCaseAnswers) = Inr mixedCaseAnswers \<and>
   ResponseExtractValidAnswers CanonicalName (testQuestion ''example.com.'')
     (testReply (testQuery ''example.com.'')
        [A \<lparr>HdrName = ''example.com.'', Rrtype = TypeA, Class = ClassCHAOS, Ttl = 0\<rparr>
           [127, 0, 0, 1]]) = Inl ErrNoData \<and>
   ResponseExtractValidAnswers CanonicalName (testQuestion ''example.com.'')
     (testReply (testQuery ''example.com.'')
        [A (inHeader ''example.org.'' TypeA) [127, 0, 0, 1]]) = Inl ErrNoData \<and>
   ResponseExtractValidAnswers CanonicalName (testQuestion ''example.com.'')
     (testReply (testQuery ''example.com.'') []) = Inl ErrNoData"
proof -
  let ?q = "testQuestion ''Example.CO.UK.''"
  let ?r = "testReply (testQuery ''Example.CO.UK.'') mixedCaseAnswers"
  have kept: "filter (specKeeps CanonicalName ?q (Answer ?r)) (Answer ?r) = mixedCaseAnswers"
    by (simp add: specKeeps_def validNameSet_def chainState_def chainInit_def
        mixedCaseAnswers_def testQuestion_def testReply_def inHeader_def
        responseEqualASCIIName_iff specLower_def CanonicalName_def Fqdn_def IsFqdn_def
        foldByte_specLower lookupName_def ClassINET_def)
  have 1: "ResponseExtractValidAnswers CanonicalName ?q ?r = Inr mixedCaseAnswers"
    using ResponseExtractValidAnswers_keeps_valid_names [of CanonicalName ?q ?r]
    by (simp add: kept) (simp add: mixedCaseAnswers_def)
  let ?p = "testQuestion ''example.com.''"
  let ?chaos = "testReply (testQuery ''example.com.'')
        [A \<lparr>HdrName = ''example.com.'', Rrtype = TypeA, Class = ClassCHAOS, Ttl = 0\<rparr>
           [127, 0, 0, 1]]"
  have classes: "\<forall>rr \<in> set (Answer ?chaos). Class (Header rr) \<noteq> Qclass ?p"
    by (simp add: testReply_def testQuestion_def ClassCHAOS_def ClassINET_def)
  have 2: "ResponseExtractValidAnswers CanonicalName ?p ?chaos = Inl ErrNoData"
    using ResponseExtractValidAnswers_keeps_valid_names [of CanonicalName ?p ?chaos] classes
    by blast
  let ?other = "testReply (testQuery ''example.com.'')
        [A (inHeader ''example.org.'' TypeA) [127, 0, 0, 1]]"
  have names: "\<forall>rr \<in> set (Answer ?other).
      CanonicalName (HdrName (Header rr)) \<notin> validNameSet CanonicalName ?p (Answer ?other)"
    by (simp add: validNameSet_def chainState_def chainInit_def
        testQuestion_def testReply_def inHeader_def specLower_def CanonicalName_def
        Fqdn_def IsFqdn_def foldByte_specLower lookupName_def)
  have 3: "ResponseExtractValidAnswers CanonicalName ?p ?other = Inl ErrNoData"
    using ResponseExtractValidAnswers_keeps_valid_names [of CanonicalName ?p ?other] names
    by blast
  let ?empty = "testReply (testQuery ''example.com.'') []"
  have "Answer ?empty = []"
    by (simp add: testReply_def)
  then have 4: "ResponseExtractValidAnswers CanonicalName ?p ?empty = Inl ErrNoData"
    using ResponseExtractValidAnswers_keeps_valid_names [of CanonicalName ?p ?empty]
    by blast
  from 1 2 3 4 show ?thesis by simp
qed

lemma in_set_not_Nil: "x \<in> set xs \<Longrightarrow> xs \<noteq> []"
  by (cases xs) simp_all

text \<open>
  Claim C10. For every question and every response, each answer record whose
  canonicalized header name is the canonicalized name of the question and whose class is
  the class of the question is in the result of the extraction, with or without
  \<open>CNAME\<close> records in the response; so the extraction does not return \<open>NoData\<close> when
  there is such a record.
\<close>

theorem question_name_records_always_extracted:
  "(rr \<in> set (Answer resp) \<and> canon (HdrName (Header rr)) = canon (Name q0) \<and>
    Class (Header rr) = Qclass q0 \<longrightarrow>
      (\<exists>valid. ResponseExtractValidAnswers canon q0 resp = Inr valid \<and> rr \<in> set valid) \<and>
      ResponseExtractValidAnswers canon q0 resp \<noteq> Inl ErrNoData)"
proof -
  let ?kept = "filter (specKeeps canon q0 (Answer resp)) (Answer resp)"
  have "(\<exists>valid. ResponseExtractValidAnswers canon q0 resp = Inr valid \<and> rr \<in> set valid) \<and>
        ResponseExtractValidAnswers canon q0 resp \<noteq> Inl ErrNoData"
    if "rr \<in> set (Answer resp)" "canon (HdrName (Header rr)) = canon (Name q0)"
       "Class (Header rr) = Qclass q0"
  proof -
    have mem: "rr \<in> set ?kept"
      using that question_name_valid [of canon q0 "Answer resp"]
      by (simp add: specKeeps_def)
    then have "?kept \<noteq> []"
      by (rule in_set_not_Nil)
    then have "ResponseExtractValidAnswers canon q0 resp = Inr ?kept"
      by (simp add: ResponseExtractValidAnswers_filter)
    with mem show ?thesis
      by simp
  qed
  then show ?thesis
    by blast
qed

text \<open>An address record for the name of the question, in another case.\<close>

theorem question_name_records_always_extracted_witness:
  "ResponseExtractValidAnswers CanonicalName (testQuestion ''example.com.'')
     (testReply (testQuery ''example.com.'')
        [A (inHeader ''Example.COM.'' TypeA) [127, 0, 0, 1]])
     = Inr [A (inHeader ''Example.COM.'' TypeA) [127, 0, 0, 1]]"
proof -
  let ?q = "testQuestion ''example.com.''"
  let ?rr = "A (inHeader ''Example.COM.'' TypeA) [127, 0, 0, 1]"
  let ?r = "testReply (testQuery ''example.com.'') [?rr]"
  have a: "?rr \<in> set (Answer ?r)"
    by (simp add: testReply_def)
  have b: "CanonicalName (HdrName (Header ?rr)) = CanonicalName (Name ?q)"
    by code_simp
  have c: "Class (Header ?rr) = Qclass ?q"
    by (simp add: inHeader_def testQuestion_def)
  from question_name_records_always_extracted [of ?rr ?r CanonicalName ?q] a b c
  obtain valid where v: "ResponseExtractValidAnswers CanonicalName ?q ?r = Inr valid"
    and m: "?rr \<in> set valid"
    by blast
  have "ResponseExtractValidAnswers CanonicalName ?q ?r = Inr [?rr]"
    by code_simp
  with v m show ?thesis by simp
qed

section \<open>Properties of the validation\<close>

text \<open>
  Claim C4. For every query and response, the validation makes its checks in one fixed
  order, and the first that fails decides: \<open>InvalidResponse\<close> if the response flag is not
  set; \<open>InvalidResponse\<close> if the identifiers differ; \<open>InvalidQuery\<close> if the query does
  not have exactly one question; \<open>InvalidResponse\<close> if the response does not have
  exactly one question; \<open>InvalidResponse\<close> if the names of the two questions are unequal
  under the comparator, or their classes differ, or their types differ. On success the
  result is the one question of the query, not that of the response.
\<close>

theorem ValidateResponseForQuery_first_failure_wins:
  "(\<not> Response resp \<longrightarrow> ValidateResponseForQuery query resp = Inl ErrInvalidResponse) \<and>
   (Response resp \<and> Id' resp \<noteq> Id' query \<longrightarrow>
      ValidateResponseForQuery query resp = Inl ErrInvalidResponse) \<and>
   (Response resp \<and> Id' resp = Id' query \<and> length (Question query) \<noteq> 1 \<longrightarrow>
      ValidateResponseForQuery query resp = Inl ErrInvalidQuery) \<and>
   (Response resp \<and> Id' resp = Id' query \<and> length (Question query) = 1 \<and>
    length (Question resp) \<noteq> 1 \<longrightarrow>
      ValidateResponseForQuery query resp = Inl ErrInvalidResponse) \<and>
   (Response resp \<and> Id' resp = Id' query \<and> Question query = [query0] \<and>
    Question resp = [resp0] \<and>
    (\<not> responseEqualASCIIName (Name resp0) (Name query0) \<or>
     Qclass resp0 \<noteq> Qclass query0 \<or> Qtype resp0 \<noteq> Qtype query0) \<longrightarrow>
      ValidateResponseForQuery query resp = Inl ErrInvalidResponse) \<and>
   (Response resp \<and> Id' resp = Id' query \<and> Question query = [query0] \<and>
    Question resp = [resp0] \<and> responseEqualASCIIName (Name resp0) (Name query0) \<and>
    Qclass resp0 = Qclass query0 \<and> Qtype resp0 = Qtype query0 \<longrightarrow>
      ValidateResponseForQuery query resp = Inr query0) \<and>
   (\<forall>q. ValidateResponseForQuery query resp = Inr q \<longrightarrow> Question query = [q])"
proof -
  have single: "xs = [xs ! 0]" if "length xs = 1" for xs :: "Question list"
    using that by (cases xs) auto
  have checks: "?thesis" if "Question query = [a]" "Question resp = [b]" for a b
    using that by (auto simp: ValidateResponseForQuery_def Let_def)
  show ?thesis
  proof (cases "length (Question query) = 1 \<and> length (Question resp) = 1")
    case True
    then show ?thesis
      using checks [OF single single] by blast
  next
    case False
    then show ?thesis
      by (auto simp: ValidateResponseForQuery_def)
  qed
qed

text \<open>
  A reply whose question differs from the query's in case only is accepted, and the
  question returned is the query's. A query without a question gives \<open>InvalidQuery\<close>,
  unless the identifier is wrong too, or the response flag is not set: those are checked
  first. A question of another type is refused, and so is a reply without a question.
\<close>

theorem ValidateResponseForQuery_first_failure_wins_witness:
  "ValidateResponseForQuery (testQuery ''example.com.'')
     ((testReply (testQuery ''example.com.'') [])
        \<lparr>Question := [\<lparr>Name = ''EXAMPLE.com.'', Qtype = TypeA, Qclass = ClassINET\<rparr>]\<rparr>)
     = Inr (testQuestion ''example.com.'') \<and>
   ValidateResponseForQuery ((testQuery ''example.com.'')\<lparr>Question := []\<rparr>)
     (testReply (testQuery ''example.com.'') []) = Inl ErrInvalidQuery \<and>
   ValidateResponseForQuery ((testQuery ''example.com.'')\<lparr>Question := []\<rparr>)
     ((testReply (testQuery ''example.com.'') [])\<lparr>Id' := 38\<rparr>) = Inl ErrInvalidResponse \<and>
   ValidateResponseForQuery (testQuery ''example.com.'')
     ((testReply (testQuery ''example.com.'') [])
        \<lparr>Question := [\<lparr>Name = ''example.com.'', Qtype = TypeAAAA, Qclass = ClassINET\<rparr>]\<rparr>)
     = Inl ErrInvalidResponse \<and>
   ValidateResponseForQuery ((testQuery ''example.com.'')\<lparr>Question := []\<rparr>)
     ((testReply (testQuery ''example.com.'') [])\<lparr>Response := False\<rparr>) = Inl ErrInvalidResponse \<and>
   ValidateResponseForQuery (testQuery ''example.com.'')
     ((testReply (testQuery ''example.com.'') [])\<lparr>Question := []\<rparr>) = Inl ErrInvalidResponse"
proof -
  let ?query = "testQuery ''example.com.''"
  let ?reply = "testReply ?query []"
  let ?upper = "\<lparr>Name = ''EXAMPLE.com.'', Qtype = TypeA, Qclass = ClassINET\<rparr>"
  let ?aaaa = "\<lparr>Name = ''example.com.'', Qtype = TypeAAAA, Qclass = ClassINET\<rparr>"
  have same: "responseEqualASCIIName ''EXAMPLE.com.'' ''example.com.''"
    by code_simp
  have 1: "ValidateResponseForQuery ?query (?reply\<lparr>Question := [?upper]\<rparr>)
      = Inr (testQuestion ''example.com.'')"
    using ValidateResponseForQuery_first_failure_wins
      [of "?reply\<lparr>Question := [?upper]\<rparr>" ?query "testQuestion ''example.com.''" ?upper] same
    by (simp add: testQuery_def testReply_def testQuestion_def)
  have 2: "ValidateResponseForQuery (?query\<lparr>Question := []\<rparr>) ?reply = Inl ErrInvalidQuery"
    using ValidateResponseForQuery_first_failure_wins [of ?reply "?query\<lparr>Question := []\<rparr>"]
    by (simp add: testQuery_def testReply_def)
  have 3: "ValidateResponseForQuery (?query\<lparr>Question := []\<rparr>) (?reply\<lparr>Id' := 38\<rparr>)
      = Inl ErrInvalidResponse"
    using ValidateResponseForQuery_first_failure_wins
      [of "?reply\<lparr>Id' := 38\<rparr>" "?query\<lparr>Question := []\<rparr>"]
    by (simp add: testQuery_def testReply_def)
  have 4: "ValidateResponseForQuery ?query (?reply\<lparr>Question := [?aaaa]\<rparr>)
      = Inl ErrInvalidResponse"
    using ValidateResponseForQuery_first_failure_wins
      [of "?reply\<lparr>Question := [?aaaa]\<rparr>" ?query "testQuestion ''example.com.''" ?aaaa]
    by (simp add: testQuery_def testReply_def testQuestion_def TypeA_def TypeAAAA_def)
  have 5: "ValidateResponseForQuery (?query\<lparr>Question := []\<rparr>) (?reply\<lparr>Response := False\<rparr>)
      = Inl ErrInvalidResponse"
    using ValidateResponseForQuery_first_failure_wins
      [of "?reply\<lparr>Response := False\<rparr>" "?query\<lparr>Question := []\<rparr>"]
    by simp
  have 6: "ValidateResponseForQuery ?query (?reply\<lparr>Question := []\<rparr>) = Inl ErrInvalidResponse"
    using ValidateResponseForQuery_first_failure_wins [of "?reply\<lparr>Question := []\<rparr>" ?query]
    by (simp add: testQuery_def testReply_def)
  from 1 2 3 4 5 6 show ?thesis by simp
qed

section \<open>Properties of the interpretation of the result code\<close>

text \<open>
  Claim C5. For every response, the interpreter of the result code returns \<open>NoSuchName\<close>
  for the code name-error; otherwise \<open>NoData\<close> when the code is success, the response is
  neither authoritative nor has recursion available, and the answer section is empty;
  otherwise, for a code that is not success, \<open>ServerTemporarilyMisbehaving\<close> for
  server-failure and \<open>ServerMisbehaving\<close> for every other code; and no error otherwise.
\<close>

theorem ResponseErrorFromRCODE_cases:
  "(Rcode resp = RcodeNameError \<longrightarrow> ResponseErrorFromRCODE resp = Some ErrNoName) \<and>
   (Rcode resp = RcodeSuccess \<and> \<not> Authoritative resp \<and> \<not> RecursionAvailable resp \<and>
    Answer resp = [] \<longrightarrow> ResponseErrorFromRCODE resp = Some ErrNoData) \<and>
   (Rcode resp = RcodeServerFailure \<longrightarrow>
      ResponseErrorFromRCODE resp = Some ErrServerTemporarilyMisbehaving) \<and>
   (Rcode resp \<noteq> RcodeSuccess \<and> Rcode resp \<noteq> RcodeNameError \<and>
    Rcode resp \<noteq> RcodeServerFailure \<longrightarrow>
      ResponseErrorFromRCODE resp = Some ErrServerMisbehaving) \<and>
   (Rcode resp = RcodeSuccess \<and>
    (Authoritative resp \<or> RecursionAvailable resp \<or> Answer resp \<noteq> []) \<longrightarrow>
      ResponseErrorFromRCODE resp = None)"
  by (auto simp: ResponseErrorFromRCODE_def RcodeSuccess_def RcodeNameError_def
      RcodeServerFailure_def)

text \<open>
  The five cases of the package's test of the interpreter.
\<close>

theorem ResponseErrorFromRCODE_cases_witness:
  "ResponseErrorFromRCODE ((testReply (testQuery ''example.com.'') [])\<lparr>Rcode := RcodeNameError\<rparr>)
     = Some ErrNoName \<and>
   ResponseErrorFromRCODE ((testReply (testQuery ''example.com.'') [])\<lparr>Rcode := RcodeServerFailure\<rparr>)
     = Some ErrServerTemporarilyMisbehaving \<and>
   ResponseErrorFromRCODE ((testReply (testQuery ''example.com.'') [])\<lparr>Rcode := RcodeRefused\<rparr>)
     = Some ErrServerMisbehaving \<and>
   ResponseErrorFromRCODE (testReply (testQuery ''example.com.'') []) = Some ErrNoData \<and>
   ResponseErrorFromRCODE
     ((testReply (testQuery ''example.com.'')
         [A (inHeader ''example.com.'' TypeA) [127, 0, 0, 1]])
        \<lparr>Authoritative := True, RecursionAvailable := True\<rparr>) = None"
proof -
  let ?reply = "testReply (testQuery ''example.com.'') []"
  let ?full = "(testReply (testQuery ''example.com.'')
         [A (inHeader ''example.com.'' TypeA) [127, 0, 0, 1]])
        \<lparr>Authoritative := True, RecursionAvailable := True\<rparr>"
  have 1: "ResponseErrorFromRCODE (?reply\<lparr>Rcode := RcodeNameError\<rparr>) = Some ErrNoName"
    using ResponseErrorFromRCODE_cases [of "?reply\<lparr>Rcode := RcodeNameError\<rparr>"]
    by simp
  have 2: "ResponseErrorFromRCODE (?reply\<lparr>Rcode := RcodeServerFailure\<rparr>)
      = Some ErrServerTemporarilyMisbehaving"
    using ResponseErrorFromRCODE_cases [of "?reply\<lparr>Rcode := RcodeServerFailure\<rparr>"]
    by simp
  have 3: "ResponseErrorFromRCODE (?reply\<lparr>Rcode := RcodeRefused\<rparr>) = Some ErrServerMisbehaving"
    using ResponseErrorFromRCODE_cases [of "?reply\<lparr>Rcode := RcodeRefused\<rparr>"]
    by (simp add: RcodeRefused_def RcodeSuccess_def RcodeNameError_def RcodeServerFailure_def)
  have 4: "ResponseErrorFromRCODE ?reply = Some ErrNoData"
    using ResponseErrorFromRCODE_cases [of ?reply]
    by (simp add: testReply_def)
  have 5: "ResponseErrorFromRCODE ?full = None"
    using ResponseErrorFromRCODE_cases [of ?full]
    by (simp add: testReply_def)
  from 1 2 3 4 5 show ?thesis by simp
qed

section \<open>Properties of the pipeline\<close>

text \<open>
  Claim C6. For every query and response, \<open>ParseResponse\<close> runs the validation, then the
  interpretation of the result code, then the extraction, in that sequence. The first
  error is returned as it is and nothing else is produced. The response value is built
  only when the three stages succeed, from the query, the response and the extracted
  records, and its list of valid records is then never empty.
\<close>

theorem ParseResponse_runs_stages_in_sequence:
  "(ValidateResponseForQuery query resp = Inl e \<longrightarrow> ParseResponse canon query resp = Inl e) \<and>
   (ValidateResponseForQuery query resp = Inr q0 \<and> ResponseErrorFromRCODE resp = Some e \<longrightarrow>
      ParseResponse canon query resp = Inl e) \<and>
   (ValidateResponseForQuery query resp = Inr q0 \<and> ResponseErrorFromRCODE resp = None \<and>
    ResponseExtractValidAnswers canon q0 resp = Inl e \<longrightarrow>
      ParseResponse canon query resp = Inl e) \<and>
   (ValidateResponseForQuery query resp = Inr q0 \<and> ResponseErrorFromRCODE resp = None \<and>
    ResponseExtractValidAnswers canon q0 resp = Inr rrs \<longrightarrow>
      ParseResponse canon query resp = Inr \<lparr>RQuery = query, RResponse = resp, ValidRRs = rrs\<rparr>) \<and>
   (ParseResponse canon query resp = Inr r \<longrightarrow>
      ValidRRs r \<noteq> [] \<and> RQuery r = query \<and> RResponse r = resp \<and>
      (\<exists>q. ValidateResponseForQuery query resp = Inr q \<and> ResponseErrorFromRCODE resp = None \<and>
           ResponseExtractValidAnswers canon q resp = Inr (ValidRRs r)))"
proof -
  have nonempty: "rrs \<noteq> []" if "ResponseExtractValidAnswers canon q resp = Inr rrs" for q rrs
    using that by (auto simp: ResponseExtractValidAnswers_filter split: if_splits)
  have success:
    "ValidRRs r \<noteq> [] \<and> RQuery r = query \<and> RResponse r = resp \<and>
      (\<exists>q. ValidateResponseForQuery query resp = Inr q \<and> ResponseErrorFromRCODE resp = None \<and>
           ResponseExtractValidAnswers canon q resp = Inr (ValidRRs r))"
    if "ParseResponse canon query resp = Inr r"
    using that nonempty
    by (auto simp: ParseResponse_def split: sum.splits option.splits)
  show ?thesis
    using success by (auto simp: ParseResponse_def)
qed

text \<open>
  The four cases of the package's test of the pipeline; in the second the reply has a
  wrong identifier and a refusing result code, and the error is the validation's.
\<close>

theorem ParseResponse_runs_stages_in_sequence_witness:
  "ParseResponse CanonicalName (testQuery ''example.com.'')
     (testReply (testQuery ''example.com.'')
        [A (inHeader ''example.com.'' TypeA) [127, 0, 0, 1]])
     = Inr \<lparr>RQuery = testQuery ''example.com.'',
            RResponse = testReply (testQuery ''example.com.'')
              [A (inHeader ''example.com.'' TypeA) [127, 0, 0, 1]],
            ValidRRs = [A (inHeader ''example.com.'' TypeA) [127, 0, 0, 1]]\<rparr> \<and>
   ParseResponse CanonicalName (testQuery ''example.com.'')
     ((testReply (testQuery ''example.com.'') [])\<lparr>Id' := 38, Rcode := RcodeRefused\<rparr>)
     = Inl ErrInvalidResponse \<and>
   ParseResponse CanonicalName (testQuery ''example.com.'')
     ((testReply (testQuery ''example.com.'') [])\<lparr>Rcode := RcodeRefused\<rparr>)
     = Inl ErrServerMisbehaving \<and>
   ParseResponse CanonicalName (testQuery ''example.com.'')
     ((testReply (testQuery ''example.com.'') [])
        \<lparr>Authoritative := True, RecursionAvailable := True\<rparr>)
     = Inl ErrNoData"
proof -
  let ?query = "testQuery ''example.com.''"
  let ?q = "testQuestion ''example.com.''"
  let ?rr = "A (inHeader ''example.com.'' TypeA) [127, 0, 0, 1]"
  let ?good = "testReply ?query [?rr]"
  let ?badid = "(testReply ?query [])\<lparr>Id' := 38, Rcode := RcodeRefused\<rparr>"
  let ?refused = "(testReply ?query [])\<lparr>Rcode := RcodeRefused\<rparr>"
  let ?nodata = "(testReply ?query [])\<lparr>Authoritative := True, RecursionAvailable := True\<rparr>"
  have v1: "ValidateResponseForQuery ?query ?good = Inr ?q"
    by code_simp
  have r1: "ResponseErrorFromRCODE ?good = None"
    by code_simp
  have x1: "ResponseExtractValidAnswers CanonicalName ?q ?good = Inr [?rr]"
    by code_simp
  have 1: "ParseResponse CanonicalName ?query ?good
      = Inr \<lparr>RQuery = ?query, RResponse = ?good, ValidRRs = [?rr]\<rparr>"
    using ParseResponse_runs_stages_in_sequence [of ?query ?good _ CanonicalName ?q "[?rr]"]
      v1 r1 x1
    by blast
  have v2: "ValidateResponseForQuery ?query ?badid = Inl ErrInvalidResponse"
    by code_simp
  have 2: "ParseResponse CanonicalName ?query ?badid = Inl ErrInvalidResponse"
    using ParseResponse_runs_stages_in_sequence [of ?query ?badid ErrInvalidResponse CanonicalName]
      v2
    by blast
  have v3: "ValidateResponseForQuery ?query ?refused = Inr ?q"
    by code_simp
  have r3: "ResponseErrorFromRCODE ?refused = Some ErrServerMisbehaving"
    by code_simp
  have 3: "ParseResponse CanonicalName ?query ?refused = Inl ErrServerMisbehaving"
    using ParseResponse_runs_stages_in_sequence
      [of ?query ?refused ErrServerMisbehaving CanonicalName ?q]
      v3 r3
    by blast
  have v4: "ValidateResponseForQuery ?query ?nodata = Inr ?q"
    by code_simp
  have r4: "ResponseErrorFromRCODE ?nodata = None"
    by code_simp
  have x4: "ResponseExtractValidAnswers CanonicalName ?q ?nodata = Inl ErrNoData"
    by code_simp
  have 4: "ParseResponse CanonicalName ?query ?nodata = Inl ErrNoData"
    using ParseResponse_runs_stages_in_sequence
      [of ?query ?nodata ErrNoData CanonicalName ?q]
      v4 r4 x4
    by blast
  from 1 2 3 4 show ?thesis by simp
qed

section \<open>Properties of the projections\<close>

lemma recordsALoop_map_filter:
  "recordsALoop ipString rrs out = out @ map ipString (List.map_filter addrOfA rrs)"
  by (induction ipString rrs out rule: recordsALoop.induct) simp_all

lemma recordsAAAALoop_map_filter:
  "recordsAAAALoop ipString rrs out = out @ map ipString (List.map_filter addrOfAAAA rrs)"
  by (induction ipString rrs out rule: recordsAAAALoop.induct)
    simp_all

lemma recordsCNAMELoop_map_filter:
  "recordsCNAMELoop rrs out = out @ List.map_filter targetOfCNAME rrs"
  by (induction rrs out rule: recordsCNAMELoop.induct) simp_all

text \<open>
  Claim C8. For every response value, and so for every one that the pipeline has built,
  the projection of the canonical names returns the targets of all the \<open>CNAME\<close> records
  among the valid records, found in one scan and in their order, and fails with
  \<open>NoData\<close> when there is no \<open>CNAME\<close> record among them.
\<close>

theorem RecordsCNAME_lists_targets_in_order:
  "RecordsCNAME r =
     (if List.map_filter targetOfCNAME (ValidRRs r) = [] then Inl ErrNoData
      else Inr (List.map_filter targetOfCNAME (ValidRRs r))) \<and>
   ((\<forall>rr \<in> set (ValidRRs r). targetOfCNAME rr = None) \<longrightarrow> RecordsCNAME r = Inl ErrNoData) \<and>
   RecordsCNAME r \<noteq> Inr []"
proof -
  have eq: "RecordsCNAME r =
     (if List.map_filter targetOfCNAME (ValidRRs r) = [] then Inl ErrNoData
      else Inr (List.map_filter targetOfCNAME (ValidRRs r)))"
    by (simp add: RecordsCNAME_def recordsCNAMELoop_map_filter)
  have none: "List.map_filter targetOfCNAME (ValidRRs r) = []"
    if "\<forall>rr \<in> set (ValidRRs r). targetOfCNAME rr = None"
    using that by (simp add: List.map_filter_def filter_empty_conv)
  show ?thesis
    using none by (simp add: eq)
qed

text \<open>
  The two tests of the projection, and a list of valid records with an address only.
\<close>

theorem RecordsCNAME_lists_targets_in_order_witness:
  "RecordsCNAME (testResponse
      [CNAME (inHeader ''www.example.com.'' TypeCNAME) ''example.com.'',
       CNAME (inHeader ''example.com.'' TypeCNAME) ''example.net.'',
       A (inHeader ''example.net.'' TypeA) [127, 0, 0, 1]])
     = Inr [''example.com.'', ''example.net.''] \<and>
   RecordsCNAME (testResponse []) = Inl ErrNoData \<and>
   RecordsCNAME (testResponse [A (inHeader ''example.net.'' TypeA) [127, 0, 0, 1]])
     = Inl ErrNoData"
proof -
  let ?chain = "testResponse
      [CNAME (inHeader ''www.example.com.'' TypeCNAME) ''example.com.'',
       CNAME (inHeader ''example.com.'' TypeCNAME) ''example.net.'',
       A (inHeader ''example.net.'' TypeA) [127, 0, 0, 1]]"
  let ?addr = "testResponse [A (inHeader ''example.net.'' TypeA) [127, 0, 0, 1]]"
  have 1: "RecordsCNAME ?chain = Inr [''example.com.'', ''example.net.'']"
    using RecordsCNAME_lists_targets_in_order [of ?chain]
    by (simp add: testResponse_def)
  have 2: "RecordsCNAME (testResponse []) = Inl ErrNoData"
    using RecordsCNAME_lists_targets_in_order [of "testResponse []"]
    by (simp add: testResponse_def)
  have "\<forall>rr \<in> set (ValidRRs ?addr). targetOfCNAME rr = None"
    by (simp add: testResponse_def)
  then have 3: "RecordsCNAME ?addr = Inl ErrNoData"
    using RecordsCNAME_lists_targets_in_order [of ?addr]
    by blast
  from 1 2 3 show ?thesis by simp
qed

text \<open>
  Claim C9. For every response value, and so for every one that the pipeline has built,
  \<open>RecordsA\<close> returns exactly the textual addresses of the \<open>A\<close> records among the valid
  records, in their order, and \<open>RecordsAAAA\<close> those of the \<open>AAAA\<close> records, in their
  order. No record contributes to both projections. Each projection returns \<open>NoData\<close>,
  and never an empty list, when there is no record of its type.
\<close>

theorem RecordsA_RecordsAAAA_never_mix_types:
  "RecordsA ipString r =
     (if List.map_filter addrOfA (ValidRRs r) = [] then Inl ErrNoData
      else Inr (map ipString (List.map_filter addrOfA (ValidRRs r)))) \<and>
   RecordsAAAA ipString r =
     (if List.map_filter addrOfAAAA (ValidRRs r) = [] then Inl ErrNoData
      else Inr (map ipString (List.map_filter addrOfAAAA (ValidRRs r)))) \<and>
   (addrOfA rr = None \<or> addrOfAAAA rr = None) \<and>
   (RecordsA ipString (r\<lparr>ValidRRs := [rr]\<rparr>) = Inl ErrNoData \<or>
    RecordsAAAA ipString (r\<lparr>ValidRRs := [rr]\<rparr>) = Inl ErrNoData) \<and>
   RecordsA ipString r \<noteq> Inr [] \<and>
   RecordsAAAA ipString r \<noteq> Inr []"
proof -
  have a: "RecordsA ipString r =
     (if List.map_filter addrOfA (ValidRRs r) = [] then Inl ErrNoData
      else Inr (map ipString (List.map_filter addrOfA (ValidRRs r))))" for r
    by (simp add: RecordsA_def recordsALoop_map_filter)
  have b: "RecordsAAAA ipString r =
     (if List.map_filter addrOfAAAA (ValidRRs r) = [] then Inl ErrNoData
      else Inr (map ipString (List.map_filter addrOfAAAA (ValidRRs r))))" for r
    by (simp add: RecordsAAAA_def recordsAAAALoop_map_filter)
  have c: "addrOfA rr = None \<or> addrOfAAAA rr = None"
    by (cases rr) simp_all
  have d: "RecordsA ipString (r\<lparr>ValidRRs := [rr]\<rparr>) = Inl ErrNoData \<or>
    RecordsAAAA ipString (r\<lparr>ValidRRs := [rr]\<rparr>) = Inl ErrNoData"
    by (cases rr) (simp_all add: a b)
  show ?thesis
    using c d by (simp add: a b)
qed

text \<open>
  The valid records of the package's test with two \<open>A\<close> records and one \<open>AAAA\<close>
  record, and the empty list.
\<close>

theorem RecordsA_RecordsAAAA_never_mix_types_witness:
  "RecordsA testIPString (testResponse
      [A (inHeader ''example.com.'' TypeA) [127, 0, 0, 1],
       A (inHeader ''example.com.'' TypeA) [8, 8, 8, 8],
       AAAA (inHeader ''example.com.'' TypeAAAA)
         [0x20, 0x01, 0x0d, 0xb8, 0, 0, 0, 0, 0, 0, 0, 0, 0, 0, 0, 1]])
     = Inr [''127.0.0.1'', ''8.8.8.8''] \<and>
   RecordsAAAA testIPString (testResponse
      [A (inHeader ''example.com.'' TypeA) [127, 0, 0, 1],
       A (inHeader ''example.com.'' TypeA) [8, 8, 8, 8],
       AAAA (inHeader ''example.com.'' TypeAAAA)
         [0x20, 0x01, 0x0d, 0xb8, 0, 0, 0, 0, 0, 0, 0, 0, 0, 0, 0, 1]])
     = Inr [''2001:db8::1''] \<and>
   RecordsA testIPString (testResponse []) = Inl ErrNoData \<and>
   RecordsAAAA testIPString (testResponse []) = Inl ErrNoData"
proof -
  let ?mixed = "testResponse
      [A (inHeader ''example.com.'' TypeA) [127, 0, 0, 1],
       A (inHeader ''example.com.'' TypeA) [8, 8, 8, 8],
       AAAA (inHeader ''example.com.'' TypeAAAA)
         [0x20, 0x01, 0x0d, 0xb8, 0, 0, 0, 0, 0, 0, 0, 0, 0, 0, 0, 1]]"
  have 1: "RecordsA testIPString ?mixed = Inr [''127.0.0.1'', ''8.8.8.8''] \<and>
           RecordsAAAA testIPString ?mixed = Inr [''2001:db8::1'']"
    using RecordsA_RecordsAAAA_never_mix_types [of testIPString ?mixed]
    by (simp add: testResponse_def testIPString_def)
  have 2: "RecordsA testIPString (testResponse []) = Inl ErrNoData \<and>
           RecordsAAAA testIPString (testResponse []) = Inl ErrNoData"
    using RecordsA_RecordsAAAA_never_mix_types [of testIPString "testResponse []"]
    by (simp add: testResponse_def)
  from 1 2 show ?thesis by simp
qed

section \<open>Properties of the query builder\<close>

lemma mod_65536_mod_128: "(x :: int) mod 65536 mod 128 = x mod 128"
  by (rule mod_mod_cancel) simp

lemma remainder_uint_word:
  "uint ((128 - w) mod 128 :: 16 word) = (128 - uint w) mod 128"
proof -
  have "uint ((128 - w) mod 128 :: 16 word) = uint (128 - w) mod uint (128 :: 16 word)"
    by (rule uint_mod_distrib)
  also have "uint (128 - w) = (uint (128 :: 16 word) - uint w) mod 2 ^ LENGTH(16)"
    by (rule uint_word_ariths)
  finally show ?thesis
    by (simp add: mod_65536_mod_128)
qed

lemma uint_word_of_nat_16: "uint (word_of_nat n :: 16 word) = int n mod 65536"
proof -
  have "uint (word_of_nat n :: 16 word) = int (unat (word_of_nat n :: 16 word))"
    by (rule uint_nat)
  also have "\<dots> = int (n mod 2 ^ LENGTH(16))"
    by (simp only: unat_of_nat)
  finally show ?thesis
    by (simp add: zmod_int)
qed

lemma remainder_uint:
  "uint ((128 - word_of_nat (L + 4)) mod 128 :: 16 word) = (128 - (int L + 4)) mod 128"
proof -
  have "uint ((128 - word_of_nat (L + 4)) mod 128 :: 16 word)
        = (128 - int (L + 4) mod 65536) mod 128"
    by (simp only: remainder_uint_word uint_word_of_nat_16)
  also have "\<dots> = (128 - int (L + 4) mod 65536 mod 128) mod 128"
    by (simp only: mod_diff_right_eq)
  also have "\<dots> = (128 - int (L + 4)) mod 128"
    by (simp only: mod_65536_mod_128 mod_diff_right_eq)
  finally show ?thesis
    by simp
qed

lemma padding_flag_cleared: "(f AND NOT QueryFlagBlockLengthPadding) AND QueryFlagBlockLengthPadding = 0"
  by (simp add: QueryFlagBlockLengthPadding_def and.assoc)

lemma dnssec_flag_kept: "(f AND NOT QueryFlagBlockLengthPadding) AND QueryFlagDNSSec = f AND QueryFlagDNSSec"
  by (simp add: QueryFlagBlockLengthPadding_def QueryFlagDNSSec_def and.assoc)


lemma padding_length:
  "int (unat ((128 - word_of_nat (L + 4)) mod 128 :: 16 word)) = (128 - (int L + 4)) mod 128"
  using remainder_uint [of L] by (simp only: uint_nat)

lemma multiples_of_128:
  fixes a k :: nat
  assumes "128 dvd a" and "128 dvd k" and "a < k + 128"
  shows "a \<le> k"
proof -
  from assms(1) obtain a' where a: "a = 128 * a'" ..
  from assms(2) obtain k' where k: "k = 128 * k'" ..
  from assms(3) have "a' < k' + 1"
    unfolding a k by simp
  then show ?thesis
    unfolding a k by simp
qed

lemma smallest_multiple:
  fixes L n :: nat
  assumes "int n = (128 - (int L + 4)) mod 128"
  shows "128 dvd L + 4 + n"
    and "\<And>k. 128 dvd k \<Longrightarrow> L + 4 \<le> k \<Longrightarrow> L + 4 + n \<le> k"
proof -
  have "(int L + 4 + int n) mod 128 = (int L + 4 + (128 - (int L + 4))) mod 128"
    unfolding assms by (rule mod_add_right_eq)
  then have "(int L + 4 + int n) mod 128 = 0"
    by simp
  then have "int (L + 4 + n) mod int 128 = 0"
    by simp
  then have "(L + 4 + n) mod 128 = 0"
    unfolding zmod_int [symmetric] by simp
  then show dvd: "128 dvd L + 4 + n"
    by (simp add: dvd_eq_mod_eq_0)
  have "int n < 128"
    unfolding assms by simp
  then have small: "n < 128"
    by simp
  fix k :: nat
  assume "128 dvd k" "L + 4 \<le> k"
  with small have "L + 4 + n < k + 128"
    by simp
  with dvd \<open>128 dvd k\<close> show "L + 4 + n \<le> k"
    by (rule multiples_of_128)
qed

lemma Len_SetEdns0_fresh:
  assumes "Extra msg0 = []"
  shows "Len fixedLen (appendOption opt (SetEdns0 udpsize dnssec msg0)) =
         Len fixedLen (SetEdns0 udpsize dnssec msg0) + optionLen opt"
  using assms by (simp add: Len_def appendOption_def SetEdns0_def)

text \<open>
  Claim C3. Take a query whose flag for block-length padding is set, and let \<open>L\<close> be
  the encoded length of the message that the same query builds without that flag. If
  that message is built, then the message with the flag is built too, for every length
  \<open>L\<close>: it is the unpadded message with one more option, a padding option of exactly
  \<open>(128 - (L + 4)) mod 128\<close> zero bytes, and its encoded length, \<open>L + 4\<close> and the
  padding, is the smallest multiple of 128 that is at least \<open>L + 4\<close>. The builder fails
  only where the encoding of the name fails, with that error; the padding adds no error.
\<close>

theorem NewMsg_pads_to_block_of_128:
  assumes "Flags q AND QueryFlagBlockLengthPadding \<noteq> 0"
  shows "(\<forall>e. NewMsg toASCII fixedLen (q\<lparr>Flags := Flags q AND NOT QueryFlagBlockLengthPadding\<rparr>) = Inl e
            \<longrightarrow> toASCII (QueryName q) = Inl e \<and> NewMsg toASCII fixedLen q = Inl e) \<and>
         (\<forall>unpadded.
            NewMsg toASCII fixedLen (q\<lparr>Flags := Flags q AND NOT QueryFlagBlockLengthPadding\<rparr>)
              = Inr unpadded \<longrightarrow>
            (\<exists>m header padding.
               NewMsg toASCII fixedLen q = Inr m \<and>
               m = appendOption (EDNS0_PADDING padding) unpadded \<and>
               Extra m = [OPT header [EDNS0_PADDING padding]] \<and>
               padding = replicate (length padding) 0 \<and>
               int (length padding) = (128 - (int (Len fixedLen unpadded) + 4)) mod 128 \<and>
               Len fixedLen m = Len fixedLen unpadded + 4 + length padding \<and>
               128 dvd Len fixedLen m \<and>
               Len fixedLen unpadded + 4 \<le> Len fixedLen m \<and>
               (\<forall>k. 128 dvd k \<and> Len fixedLen unpadded + 4 \<le> k \<longrightarrow> Len fixedLen m \<le> k)))"
proof (cases "toASCII (QueryName q)")
  case (Inl err)
  then show ?thesis
    by (simp add: NewMsg_def)
next
  case (Inr encoded)
  define punyName where "punyName = (if \<not> IsFqdn encoded then Fqdn encoded else encoded)"
  define msg0 where
    "msg0 = \<lparr>Id' = ID q, Response = False, Authoritative = False, RecursionDesired = True,
             RecursionAvailable = False, Rcode = 0,
             Question = [\<lparr>Name = punyName, Qtype = Type q, Qclass = ClassINET\<rparr>],
             Answer = [], Extra = []\<rparr>"
  define msg1 where "msg1 = SetEdns0 (MaxSize q) (Flags q AND QueryFlagDNSSec \<noteq> 0) msg0"
  define padding :: "8 word list" where
    "padding = replicate (unat ((128 - word_of_nat (Len fixedLen msg1 + 4)) mod 128 :: 16 word)) 0"
  define header where
    "header = \<lparr>HdrName = ''.'', Rrtype = TypeOPT, Class = MaxSize q,
               Ttl = (if Flags q AND QueryFlagDNSSec \<noteq> 0 then 0x8000 else 0)\<rparr>"
  have extra0: "Extra msg0 = []"
    by (simp add: msg0_def)
  have unp: "NewMsg toASCII fixedLen (q\<lparr>Flags := Flags q AND NOT QueryFlagBlockLengthPadding\<rparr>)
      = Inr msg1"
    using Inr
    by (simp add: NewMsg_def padding_flag_cleared dnssec_flag_kept msg1_def msg0_def punyName_def Let_def)
  have pad: "NewMsg toASCII fixedLen q = Inr (appendOption (EDNS0_PADDING padding) msg1)"
    using Inr assms
    by (simp add: NewMsg_def msg1_def msg0_def punyName_def padding_def Let_def)
  have extra: "Extra (appendOption (EDNS0_PADDING padding) msg1) = [OPT header [EDNS0_PADDING padding]]"
    by (simp add: appendOption_def msg1_def SetEdns0_def msg0_def header_def)
  have zeros: "padding = replicate (length padding) 0"
    by (simp add: padding_def)
  have len: "int (length padding) = (128 - (int (Len fixedLen msg1) + 4)) mod 128"
    unfolding padding_def length_replicate by (rule padding_length)
  have total: "Len fixedLen (appendOption (EDNS0_PADDING padding) msg1)
      = Len fixedLen msg1 + 4 + length padding"
    unfolding msg1_def using Len_SetEdns0_fresh [OF extra0] by simp
  have dvd: "128 dvd Len fixedLen (appendOption (EDNS0_PADDING padding) msg1)"
    unfolding total by (rule smallest_multiple(1) [OF len])
  have least: "Len fixedLen (appendOption (EDNS0_PADDING padding) msg1) \<le> k"
    if "128 dvd k" "Len fixedLen msg1 + 4 \<le> k" for k
    unfolding total using that by (rule smallest_multiple(2) [OF len])
  have "\<exists>m header padding.
               NewMsg toASCII fixedLen q = Inr m \<and>
               m = appendOption (EDNS0_PADDING padding) msg1 \<and>
               Extra m = [OPT header [EDNS0_PADDING padding]] \<and>
               padding = replicate (length padding) 0 \<and>
               int (length padding) = (128 - (int (Len fixedLen msg1) + 4)) mod 128 \<and>
               Len fixedLen m = Len fixedLen msg1 + 4 + length padding \<and>
               128 dvd Len fixedLen m \<and>
               Len fixedLen msg1 + 4 \<le> Len fixedLen m \<and>
               (\<forall>k. 128 dvd k \<and> Len fixedLen msg1 + 4 \<le> k \<longrightarrow> Len fixedLen m \<le> k)"
    using pad extra zeros len total dvd least
    by (intro exI [of _ "appendOption (EDNS0_PADDING padding) msg1"] exI [of _ header]
        exI [of _ padding]) simp
  then show ?thesis
    by (simp add: unp)
qed


text \<open>
  The query of the package's example for an encrypted transport: the unpadded message has
  44 octets, the padding has 80 zero bytes, and the padded message has 128 octets. With
  a name that the encoder refuses, the builder returns the encoder's error.
\<close>

theorem NewMsg_pads_to_block_of_128_witness:
  "NewMsg testToASCII testFixedLen
     (testTLSQuery\<lparr>Flags := Flags testTLSQuery AND NOT QueryFlagBlockLengthPadding\<rparr>)
     = Inr \<lparr>Id' = 37, Response = False, Authoritative = False, RecursionDesired = True,
             RecursionAvailable = False, Rcode = 0,
             Question = [\<lparr>Name = ''www.example.com.'', Qtype = TypeA, Qclass = ClassINET\<rparr>],
             Answer = [],
             Extra = [OPT \<lparr>HdrName = ''.'', Rrtype = TypeOPT, Class = QueryMaxResponseSizeTCP,
                           Ttl = 0x8000\<rparr> []]\<rparr> \<and>
   NewMsg testToASCII testFixedLen testTLSQuery
     = Inr \<lparr>Id' = 37, Response = False, Authoritative = False, RecursionDesired = True,
             RecursionAvailable = False, Rcode = 0,
             Question = [\<lparr>Name = ''www.example.com.'', Qtype = TypeA, Qclass = ClassINET\<rparr>],
             Answer = [],
             Extra = [OPT \<lparr>HdrName = ''.'', Rrtype = TypeOPT, Class = QueryMaxResponseSizeTCP,
                           Ttl = 0x8000\<rparr> [EDNS0_PADDING (replicate 80 0)]]\<rparr> \<and>
   Len testFixedLen
     \<lparr>Id' = 37, Response = False, Authoritative = False, RecursionDesired = True,
      RecursionAvailable = False, Rcode = 0,
      Question = [\<lparr>Name = ''www.example.com.'', Qtype = TypeA, Qclass = ClassINET\<rparr>],
      Answer = [],
      Extra = [OPT \<lparr>HdrName = ''.'', Rrtype = TypeOPT, Class = QueryMaxResponseSizeTCP,
                    Ttl = 0x8000\<rparr> []]\<rparr> = 44 \<and>
   Len testFixedLen
     \<lparr>Id' = 37, Response = False, Authoritative = False, RecursionDesired = True,
      RecursionAvailable = False, Rcode = 0,
      Question = [\<lparr>Name = ''www.example.com.'', Qtype = TypeA, Qclass = ClassINET\<rparr>],
      Answer = [],
      Extra = [OPT \<lparr>HdrName = ''.'', Rrtype = TypeOPT, Class = QueryMaxResponseSizeTCP,
                    Ttl = 0x8000\<rparr> [EDNS0_PADDING (replicate 80 0)]]\<rparr> = 128 \<and>
   NewMsg testToASCII testFixedLen (testTLSQuery\<lparr>QueryName := ''bad name.example''\<rparr>)
     = Inl ErrIDNA"
proof -
  let ?hdr = "\<lparr>HdrName = ''.'', Rrtype = TypeOPT, Class = QueryMaxResponseSizeTCP,
               Ttl = 0x8000\<rparr>"
  let ?U = "\<lparr>Id' = 37, Response = False, Authoritative = False, RecursionDesired = True,
             RecursionAvailable = False, Rcode = 0,
             Question = [\<lparr>Name = ''www.example.com.'', Qtype = TypeA, Qclass = ClassINET\<rparr>],
             Answer = [], Extra = [OPT ?hdr []]\<rparr>"
  have flag: "Flags testTLSQuery AND QueryFlagBlockLengthPadding \<noteq> 0"
    by (simp add: testTLSQuery_def QueryFlagBlockLengthPadding_def QueryFlagDNSSec_def)
  have unp: "NewMsg testToASCII testFixedLen
     (testTLSQuery\<lparr>Flags := Flags testTLSQuery AND NOT QueryFlagBlockLengthPadding\<rparr>) = Inr ?U"
    by (simp add: NewMsg_def testToASCII_def testTLSQuery_def QueryFlagBlockLengthPadding_def
        QueryFlagDNSSec_def IsFqdn_def Fqdn_def SetEdns0_def Let_def)
  have L: "Len testFixedLen ?U = 44"
    by (simp add: Len_def testFixedLen_def)
  from NewMsg_pads_to_block_of_128 [OF flag, of testToASCII testFixedLen] unp
  obtain m header padding where built: "NewMsg testToASCII testFixedLen testTLSQuery = Inr m"
    and m: "m = appendOption (EDNS0_PADDING padding) ?U"
    and extra: "Extra m = [OPT header [EDNS0_PADDING padding]]"
    and zeros: "padding = replicate (length padding) 0"
    and n: "int (length padding) = (128 - (int (Len testFixedLen ?U) + 4)) mod 128"
    and total: "Len testFixedLen m = Len testFixedLen ?U + 4 + length padding"
    by blast
  from n have "int (length padding) = 80"
    unfolding L by simp
  then have "length padding = 80"
    by simp
  with zeros have padding: "padding = replicate 80 0"
    by simp
  have m': "m = ?U\<lparr>Extra := [OPT ?hdr [EDNS0_PADDING (replicate 80 0)]]\<rparr>"
    unfolding m padding by (simp add: appendOption_def)
  from total have "Len testFixedLen m = 128"
    unfolding L padding by simp
  let ?bad = "testTLSQuery\<lparr>QueryName := ''bad name.example''\<rparr>"
  have flag': "Flags ?bad AND QueryFlagBlockLengthPadding \<noteq> 0"
    using flag by simp
  have "NewMsg testToASCII testFixedLen
          (?bad\<lparr>Flags := Flags ?bad AND NOT QueryFlagBlockLengthPadding\<rparr>) = Inl ErrIDNA"
    by (simp add: NewMsg_def testToASCII_def)
  with NewMsg_pads_to_block_of_128 [OF flag', of testToASCII testFixedLen]
  have failed: "NewMsg testToASCII testFixedLen ?bad = Inl ErrIDNA"
    by blast
  from built unp L \<open>Len testFixedLen m = 128\<close> failed show ?thesis
    unfolding m' by simp
qed

end
